theory Spec2Isabelle
  imports Main "HOL-Library.Word"
begin

unbundle bit_operations_syntax

section \<open>MidiJack: the native MIDI input plugin\<close>

text \<open>
  A shallow embedding of \<^verbatim>\<open>MidiJackPlugin.cpp\<close> and of the decoding lines of
  \<^verbatim>\<open>MidiJackTest.cpp\<close>. The plugin keeps its data in file-level globals; here they
  are the fields of one record that every operation takes and returns. The recursive
  mutex \<^verbatim>\<open>resource_lock\<close> has no effect on a sequential run and is left out: each
  operation below is one uninterrupted call.
\<close>

subsection \<open>Basic types\<close>

text \<open>
  \<^verbatim>\<open>HMIDIIN\<close> is a pointer-sized handle; the 64-bit build is modelled, where
  \<^verbatim>\<open>uintptr_t(handle) & 0xFFFFFFFF\<close> really drops bits. \<^verbatim>\<open>DWORD_PTR\<close> is 64 bits wide as
  well, \<^verbatim>\<open>UINT\<close> and \<^verbatim>\<open>uint32_t\<close> are 32 bits wide.
\<close>

type_synonym DeviceHandle = "64 word"
type_synonym DeviceID = "32 word"
type_synonym EndpointID = "32 word"

text \<open>
  \<^verbatim>\<open>MIDIINCAPS\<close> is declared by the Windows multimedia header, not by the plugin. Its
  fields are taken from that header; \<^verbatim>\<open>szPname\<close> is an array of 32 wide characters
  holding a NUL-terminated product name.
\<close>

record MIDIINCAPS =
  wMid :: "16 word"
  wPid :: "16 word"
  vDriverVersion :: "32 word"
  szPname :: "16 word list"
  dwSupport :: "32 word"

record DeviceInfo =
  handle :: DeviceHandle
  deviceId :: DeviceID
  endpointId :: EndpointID
  deviceCaps :: MIDIINCAPS

text \<open>The value-initialised \<^verbatim>\<open>DeviceInfo\<close> (\<^verbatim>\<open>DeviceInfo info = {}\<close>, and what
  \<^verbatim>\<open>std::map::operator[]\<close> stores under a key it does not find): all bytes zero.\<close>

definition MIDIINCAPS_zero :: MIDIINCAPS where
  "MIDIINCAPS_zero =
     \<lparr>wMid = 0, wPid = 0, vDriverVersion = 0, szPname = replicate 32 0, dwSupport = 0\<rparr>"

definition DeviceInfo_zero :: DeviceInfo where
  "DeviceInfo_zero =
     \<lparr>handle = 0, deviceId = 0, endpointId = 0, deviceCaps = MIDIINCAPS_zero\<rparr>"

subsection \<open>The MIDI message class\<close>

record MidiMessage =
  source :: DeviceID
  status :: "8 word"
  data1 :: "8 word"
  data2 :: "8 word"

text \<open>The constructor \<^verbatim>\<open>MidiMessage(DeviceID source, uint32_t rawData)\<close>: the three
  byte members are initialised from a 32-bit value, which keeps the low eight bits.\<close>

definition MidiMessage_new :: "DeviceID \<Rightarrow> 32 word \<Rightarrow> MidiMessage" where
  "MidiMessage_new src rawData =
     \<lparr>source = src, status = ucast rawData,
      data1 = ucast (drop_bit 8 rawData), data2 = ucast (drop_bit 16 rawData)\<rparr>"

definition Encode64Bit :: "MidiMessage \<Rightarrow> 64 word" where
  "Encode64Bit m =
     (let ul = ucast (source m);
          ul = ul OR push_bit 32 (ucast (status m));
          ul = ul OR push_bit 40 (ucast (data1 m));
          ul = ul OR push_bit 48 (ucast (data2 m))
      in ul)"

text \<open>The four extractions of the test client's message loop.\<close>

definition decode_source :: "64 word \<Rightarrow> 32 word" where
  "decode_source msg = ucast (drop_bit 0 msg AND 0xFFFFFFFF)"

definition decode_status :: "64 word \<Rightarrow> 8 word" where
  "decode_status msg = ucast (drop_bit 32 msg AND 0xFF)"

definition decode_data1 :: "64 word \<Rightarrow> 8 word" where
  "decode_data1 msg = ucast (drop_bit 40 msg AND 0xFF)"

definition decode_data2 :: "64 word \<Rightarrow> 8 word" where
  "decode_data2 msg = ucast (drop_bit 48 msg AND 0xFF)"

definition decode :: "64 word \<Rightarrow> 32 word \<times> 8 word \<times> 8 word \<times> 8 word" where
  "decode msg = (decode_source msg, decode_status msg, decode_data1 msg, decode_data2 msg)"

subsection \<open>Containers\<close>

text \<open>
  \<^verbatim>\<open>std::map::operator[]\<close> is a lookup that inserts: when the key is absent it stores a
  value-initialised element under it and returns that element.
\<close>

definition map_index :: "('k \<rightharpoonup> 'v) \<Rightarrow> 'k \<Rightarrow> 'v \<Rightarrow> 'v \<times> ('k \<rightharpoonup> 'v)" where
  "map_index m k zero = (case m k of Some v \<Rightarrow> (v, m) | None \<Rightarrow> (zero, m(k \<mapsto> zero)))"

text \<open>
  \<^verbatim>\<open>std::list\<close> is a linked list, and an iterator is a pointer to one of its nodes. A
  node is modelled as its address paired with the value it holds; an iterator is a node,
  or \<open>None\<close> for \<^verbatim>\<open>end()\<close>. An iterator is valid while its node is in the list: erasing
  the node invalidates it, and using it afterwards is undefined behaviour, which the
  model reports as a fault.
\<close>

type_synonym node = "nat \<times> DeviceHandle"

datatype fault = InvalidIterator

definition list_begin :: "node list \<Rightarrow> node option" where
  "list_begin xs = (case xs of [] \<Rightarrow> None | n # _ \<Rightarrow> Some n)"

definition list_next :: "node list \<Rightarrow> node \<Rightarrow> fault + node option" where
  "list_next xs n =
     (if n \<in> set xs
      then Inr (case dropWhile (\<lambda>m. m \<noteq> n) xs of _ # m # _ \<Rightarrow> Some m | _ \<Rightarrow> None)
      else Inl InvalidIterator)"

definition list_remove :: "DeviceHandle \<Rightarrow> node list \<Rightarrow> node list" where
  "list_remove h xs = filter (\<lambda>n. snd n \<noteq> h) xs"

subsection \<open>The globals and the operating system\<close>

text \<open>
  \<open>next_node\<close> is the address the allocator hands to the next list node.
  \<open>buffer\<close> is the function-local static string of \<^verbatim>\<open>MidiJackGetEndpointName\<close>.
  \<open>os_open_handles\<close> is not a global of the plugin: it records, on the side of the
  operating system, the handles that \<^verbatim>\<open>midiInOpen\<close> has returned and \<^verbatim>\<open>midiInClose\<close> has
  not yet closed.
\<close>

record state =
  handle_to_device_info :: "DeviceHandle \<rightharpoonup> DeviceInfo"
  endpoint_id_to_handle :: "EndpointID \<rightharpoonup> DeviceHandle"
  message_queue :: "MidiMessage list"
  active_handles :: "node list"
  next_node :: nat
  buffer :: string
  os_open_handles :: "DeviceHandle list"

definition initial_state :: state where
  "initial_state =
     \<lparr>handle_to_device_info = Map.empty, endpoint_id_to_handle = Map.empty,
      message_queue = [], active_handles = [], next_node = 0, buffer = [],
      os_open_handles = []\<rparr>"

text \<open>
  The multimedia API is outside the plugin. What its calls answer is a parameter of the
  model: the number of devices, the handle \<^verbatim>\<open>midiInOpen\<close> returns for a device index
  (\<open>None\<close> when the call does not return \<^verbatim>\<open>MMSYSERR_NOERROR\<close>), whether \<^verbatim>\<open>midiInStart\<close>
  succeeds on a handle, and the capabilities \<^verbatim>\<open>midiInGetDevCaps\<close> fills in (\<open>None\<close> on
  failure).
\<close>

record winmm =
  midiInGetNumDevs :: "32 word"
  midiInOpen :: "DeviceID \<Rightarrow> DeviceHandle option"
  midiInStart :: "DeviceHandle \<Rightarrow> bool"
  midiInGetDevCaps :: "DeviceID \<Rightarrow> MIDIINCAPS option"

definition midiInClose :: "DeviceHandle \<Rightarrow> state \<Rightarrow> state" where
  "midiInClose h s = s\<lparr>os_open_handles := remove1 h (os_open_handles s)\<rparr>"

text \<open>The message code of a short-message event, from the multimedia header.\<close>

definition MIM_DATA :: "32 word" where
  "MIM_DATA = 0x3C3"

subsection \<open>The functions of the anonymous namespace\<close>

definition MidiInProc ::
  "DeviceHandle \<Rightarrow> 32 word \<Rightarrow> 64 word \<Rightarrow> 64 word \<Rightarrow> 64 word \<Rightarrow> state \<Rightarrow> state" where
  "MidiInProc hMidiIn wMsg dwInstance dwParam1 dwParam2 s =
     (if wMsg = MIM_DATA then
        (case map_index (handle_to_device_info s) hMidiIn DeviceInfo_zero of
           (info, m) \<Rightarrow>
             let ident = endpointId info;
                 raw = (ucast dwParam1 :: 32 word)
             in s\<lparr>handle_to_device_info := m,
                  message_queue := message_queue s @ [MidiMessage_new ident raw]\<rparr>)
      else s)"

text \<open>\<^verbatim>\<open>std::wstring name(szPname)\<close> reads up to the first NUL;
  \<^verbatim>\<open>std::string(name.begin(), name.end())\<close> narrows each wide character to a byte.\<close>

definition narrow_name :: "16 word list \<Rightarrow> string" where
  "narrow_name ws = map (\<lambda>c. char_of (unat c)) (takeWhile (\<lambda>c. c \<noteq> 0) ws)"

definition GetDeviceName :: "DeviceHandle \<Rightarrow> state \<Rightarrow> string" where
  "GetDeviceName h s =
     (case handle_to_device_info s h of
        Some info \<Rightarrow> narrow_name (szPname (deviceCaps info))
      | None \<Rightarrow> ''unknown'')"

definition OpenDevice :: "winmm \<Rightarrow> DeviceID \<Rightarrow> state \<Rightarrow> state" where
  "OpenDevice os devId s =
     (case midiInOpen os devId of
        None \<Rightarrow> s
      | Some h \<Rightarrow>
          let s1 = s\<lparr>os_open_handles := h # os_open_handles s\<rparr> in
          if midiInStart os h then
            (case midiInGetDevCaps os devId of
               Some caps \<Rightarrow>
                 let info = \<lparr>handle = h, deviceId = devId,
                             endpointId = ucast (h AND 0xFFFFFFFF), deviceCaps = caps\<rparr>
                 in s1\<lparr>endpoint_id_to_handle := (endpoint_id_to_handle s1)(endpointId info \<mapsto> h),
                       handle_to_device_info := (handle_to_device_info s1)(h \<mapsto> info),
                       active_handles := active_handles s1 @ [(next_node s1, h)],
                       next_node := Suc (next_node s1)\<rparr>
             | None \<Rightarrow> midiInClose h s1)
          else midiInClose h s1)"

definition CloseDevice :: "DeviceHandle \<Rightarrow> state \<Rightarrow> state" where
  "CloseDevice h s =
     (let s1 = midiInClose h s;
          s2 = s1\<lparr>active_handles := list_remove h (active_handles s1)\<rparr>
      in case map_index (handle_to_device_info s2) h DeviceInfo_zero of
           (info, m) \<Rightarrow>
             let endpoint_id = endpointId info;
                 s3 = s2\<lparr>handle_to_device_info := m\<rparr>;
                 s4 = s3\<lparr>endpoint_id_to_handle := (endpoint_id_to_handle s3)(endpoint_id := None)\<rparr>
             in s4\<lparr>handle_to_device_info := (handle_to_device_info s4)(h := None)\<rparr>)"

text \<open>The loop of \<^verbatim>\<open>OpenAllDevices\<close>: \<^verbatim>\<open>for (DeviceID id = 0; id < device_count; id++)\<close>
  on unsigned 32-bit counters.\<close>

function OpenAllDevices_loop :: "winmm \<Rightarrow> DeviceID \<Rightarrow> 32 word \<Rightarrow> state \<Rightarrow> state" where
  "OpenAllDevices_loop os ident device_count s =
     (if ident < device_count
      then OpenAllDevices_loop os (ident + 1) device_count (OpenDevice os ident s)
      else s)"
  by pat_completeness auto
termination
proof (relation "measure (\<lambda>(os, ident, device_count, s). unat device_count - unat ident)")
  show "wf (measure (\<lambda>(os, ident, device_count, s). unat device_count - unat ident))"
    by simp
next
  fix os :: winmm and ident device_count :: "32 word" and s :: state
  assume lt: "ident < device_count"
  then have less: "unat ident < unat device_count"
    by (simp add: word_less_nat_alt)
  have "unat device_count < 2 ^ LENGTH(32)"
    by (rule unsigned_less)
  with less have "unat ident + unat (1 :: 32 word) < 2 ^ LENGTH(32)"
    by simp
  then have "unat (ident + 1) = unat ident + unat (1 :: 32 word)"
    by (simp only: unat_add_lem)
  then have "unat (ident + 1) = Suc (unat ident)"
    by simp
  moreover note less
  ultimately show "((os, ident + 1, device_count, OpenDevice os ident s),
      (os, ident, device_count, s))
    \<in> measure (\<lambda>(os, ident, device_count, s). unat device_count - unat ident)"
    by simp
qed

text \<open>The equation of the loop is unfolded by hand.\<close>

declare OpenAllDevices_loop.simps [simp del]

definition OpenAllDevices :: "winmm \<Rightarrow> state \<Rightarrow> state" where
  "OpenAllDevices os s = OpenAllDevices_loop os 0 (midiInGetNumDevs os) s"

text \<open>
  \<^verbatim>\<open>RefreshDevices\<close> closes the devices in a range-based \<^verbatim>\<open>for\<close> over
  \<^verbatim>\<open>active_handles\<close>, that is
  \<^verbatim>\<open>for (auto it = begin(); it != end(); ++it) { auto h = *it; CloseDevice(h); }\<close>.
  The loop reads the element under the iterator, runs the body, and then advances the
  iterator in the list as the body left it.
\<close>

function RefreshDevices_loop :: "node option \<Rightarrow> state \<Rightarrow> fault + state" where
  "RefreshDevices_loop None s = Inr s"
| "RefreshDevices_loop (Some n) s =
     (if n \<in> set (active_handles s) then
        (case list_next (active_handles (CloseDevice (snd n) s)) n of
           Inl f \<Rightarrow> Inl f
         | Inr it \<Rightarrow> RefreshDevices_loop it (CloseDevice (snd n) s))
      else Inl InvalidIterator)"
  by pat_completeness auto
termination
proof (relation "measure (\<lambda>(it, s). length (active_handles s))")
  show "wf (measure (\<lambda>(it, s). length (active_handles s)))"
    by simp
next
  fix n :: node and s :: state and it :: "node option"
  assume live: "n \<in> set (active_handles s)"
  have "active_handles (CloseDevice (snd n) s) = list_remove (snd n) (active_handles s)"
    by (simp add: CloseDevice_def midiInClose_def Let_def split: prod.split)
  moreover from live have "length (list_remove (snd n) (active_handles s)) < length (active_handles s)"
    unfolding list_remove_def by (intro length_filter_less [of n]) simp_all
  ultimately show "((it, CloseDevice (snd n) s), (Some n, s))
      \<in> measure (\<lambda>(it, s). length (active_handles s))"
    by simp
qed

definition RefreshDevices :: "winmm \<Rightarrow> state \<Rightarrow> fault + state" where
  "RefreshDevices os s =
     (case RefreshDevices_loop (list_begin (active_handles s)) s of
        Inl f \<Rightarrow> Inl f
      | Inr s1 \<Rightarrow> Inr (OpenAllDevices os s1))"

text \<open>\<^verbatim>\<open>CloseAllDevices\<close>: \<^verbatim>\<open>while (!active_handles.empty()) CloseDevice(active_handles.front())\<close>.\<close>

function CloseAllDevices :: "state \<Rightarrow> state" where
  "CloseAllDevices s =
     (case active_handles s of
        [] \<Rightarrow> s
      | n # _ \<Rightarrow> CloseAllDevices (CloseDevice (snd n) s))"
  by pat_completeness auto
termination
proof (relation "measure (\<lambda>s. length (active_handles s))")
  show "wf (measure (\<lambda>s. length (active_handles s)))"
    by simp
next
  fix s :: state and n :: node and rest :: "node list"
  assume front: "active_handles s = n # rest"
  have "active_handles (CloseDevice (snd n) s) = list_remove (snd n) (active_handles s)"
    by (simp add: CloseDevice_def midiInClose_def Let_def split: prod.split)
  moreover from front have "length (list_remove (snd n) (active_handles s)) < length (active_handles s)"
    unfolding list_remove_def by (intro length_filter_less [of n]) simp_all
  ultimately show "(CloseDevice (snd n) s, s) \<in> measure (\<lambda>s. length (active_handles s))"
    by simp
qed

subsection \<open>The exported functions\<close>

text \<open>
  Each exported function returns its C result paired with the globals as it leaves them.
  \<^verbatim>\<open>static_cast<int>(active_handles.size())\<close> is the length of the list (the cast
  keeps every size below \<open>2\<^sup>3\<^sup>1\<close>).
\<close>

definition MidiJackRefreshEndpoints :: "winmm \<Rightarrow> state \<Rightarrow> fault + int \<times> state" where
  "MidiJackRefreshEndpoints os s =
     (case RefreshDevices os s of
        Inl f \<Rightarrow> Inl f
      | Inr s1 \<Rightarrow> Inr (int (length (active_handles s1)), s1))"

definition MidiJackCountEndpoints :: "state \<Rightarrow> int" where
  "MidiJackCountEndpoints s = int (length (active_handles s))"

text \<open>\<^verbatim>\<open>std::advance(itr, index)\<close> from \<^verbatim>\<open>begin()\<close> and the dereference that follows are
  defined only for an index inside the list.\<close>

definition MidiJackGetEndpointIDAtIndex :: "int \<Rightarrow> state \<Rightarrow> fault + 32 word \<times> state" where
  "MidiJackGetEndpointIDAtIndex index s =
     (if 0 \<le> index \<and> index < int (length (active_handles s)) then
        (case map_index (handle_to_device_info s) (snd (active_handles s ! nat index))
                DeviceInfo_zero of
           (info, m) \<Rightarrow> Inr (endpointId info, s\<lparr>handle_to_device_info := m\<rparr>))
      else Inl InvalidIterator)"

text \<open>
  \<^verbatim>\<open>MidiJackGetEndpointName\<close> stores the name in its static \<^verbatim>\<open>std::string\<close> and returns
  \<^verbatim>\<open>buffer.c_str()\<close>: the caller reads a C string, which ends at the first NUL byte of the
  buffer.
\<close>

definition c_str :: "string \<Rightarrow> string" where
  "c_str cs = takeWhile (\<lambda>c. of_char c \<noteq> (0 :: nat)) cs"

definition MidiJackGetEndpointName :: "32 word \<Rightarrow> state \<Rightarrow> string \<times> state" where
  "MidiJackGetEndpointName ident s =
     (case map_index (endpoint_id_to_handle s) ident 0 of
        (h, m) \<Rightarrow>
          let s1 = s\<lparr>endpoint_id_to_handle := m\<rparr>;
              s2 = s1\<lparr>buffer := GetDeviceName h s1\<rparr>
          in (c_str (buffer s2), s2))"

definition MidiJackDequeueIncomingData :: "state \<Rightarrow> 64 word \<times> state" where
  "MidiJackDequeueIncomingData s =
     (case message_queue s of
        [] \<Rightarrow> (0, s)
      | msg # rest \<Rightarrow> (Encode64Bit msg, s\<lparr>message_queue := rest\<rparr>))"

subsection \<open>Notions the properties are stated with\<close>

text \<open>The handles in the Active Handle Set, in list order.\<close>

definition handles :: "state \<Rightarrow> DeviceHandle list" where
  "handles s = map snd (active_handles s)"

text \<open>The endpoint identifier the callback reads for a handle:
  \<^verbatim>\<open>handle_to_device_info[hMidiIn].endpointId\<close>.\<close>

definition callback_endpoint :: "state \<Rightarrow> DeviceHandle \<Rightarrow> EndpointID" where
  "callback_endpoint s h =
     endpointId (fst (map_index (handle_to_device_info s) h DeviceInfo_zero))"

text \<open>
  Every device is fully registered or fully absent: the handles with a
  \<^verbatim>\<open>DeviceInfo\<close>, the handles the endpoint map points to and the handles of the active
  list are the same set.
\<close>

definition registry_consistent :: "state \<Rightarrow> bool" where
  "registry_consistent s \<longleftrightarrow>
     dom (handle_to_device_info s) = set (handles s) \<and>
     ran (endpoint_id_to_handle s) = set (handles s)"


text \<open>The name a caller reads for a capability record: the product name narrowed to
  bytes, as a C string.\<close>

definition display_name :: "MIDIINCAPS \<Rightarrow> string" where
  "display_name caps = c_str (narrow_name (szPname caps))"

text \<open>All three calls of \<^verbatim>\<open>OpenDevice\<close> succeed for a device index.\<close>

definition opens :: "winmm \<Rightarrow> DeviceID \<Rightarrow> bool" where
  "opens os devId =
     (case midiInOpen os devId of
        None \<Rightarrow> False
      | Some h \<Rightarrow> midiInStart os h \<and> midiInGetDevCaps os devId \<noteq> None)"

definition device_ids :: "winmm \<Rightarrow> DeviceID list" where
  "device_ids os = map of_nat [0..<unat (midiInGetNumDevs os)]"

text \<open>
  The contract of \<^verbatim>\<open>midiInOpen\<close>: a handle it returns is not null and is not one of the
  handles that are open at that moment.
\<close>

definition fresh_handle :: "winmm \<Rightarrow> DeviceID \<Rightarrow> state \<Rightarrow> bool" where
  "fresh_handle os devId s =
     (case midiInOpen os devId of
        None \<Rightarrow> True
      | Some h \<Rightarrow> h \<noteq> 0 \<and> h \<notin> set (os_open_handles s))"

text \<open>
  The states the plugin reaches from its initial state while the multimedia API keeps
  that contract and delivers events with a handle that is not null. The steps are the
  callback, \<^verbatim>\<open>OpenDevice\<close> (of which \<^verbatim>\<open>OpenAllDevices\<close>, and with it a refresh of a plugin
  without active devices, is a sequence), \<^verbatim>\<open>CloseDevice\<close> for any handle, and the exported
  functions that read.
\<close>

inductive reachable :: "state \<Rightarrow> bool" where
  initial: "reachable initial_state"
| callback: "reachable s \<Longrightarrow> hMidiIn \<noteq> 0 \<Longrightarrow>
    reachable (MidiInProc hMidiIn wMsg dwInstance dwParam1 dwParam2 s)"
| open_device: "reachable s \<Longrightarrow> fresh_handle os devId s \<Longrightarrow> reachable (OpenDevice os devId s)"
| close_device: "reachable s \<Longrightarrow> reachable (CloseDevice h s)"
| endpoint_id: "reachable s \<Longrightarrow> MidiJackGetEndpointIDAtIndex index s = Inr (r, s') \<Longrightarrow>
    reachable s'"
| endpoint_name: "reachable s \<Longrightarrow> reachable (snd (MidiJackGetEndpointName ident s))"
| dequeue: "reachable s \<Longrightarrow> reachable (snd (MidiJackDequeueIncomingData s))"

text \<open>What holds of the registry in every such state: nothing is stored under the null
  handle; an active handle is not null and has the \<^verbatim>\<open>DeviceInfo\<close> it was registered
  with; the endpoint map points to the null handle or to an active handle under that
  handle's identifier; the active handles are open and pairwise distinct.\<close>

definition registry_inv :: "state \<Rightarrow> bool" where
  "registry_inv s \<longleftrightarrow>
     handle_to_device_info s 0 = None \<and>
     (\<forall>h \<in> set (handles s). h \<noteq> 0 \<and>
        (\<exists>info. handle_to_device_info s h = Some info \<and> handle info = h \<and>
           endpointId info = ucast (h AND 0xFFFFFFFF))) \<and>
     (\<forall>e h. endpoint_id_to_handle s e = Some h \<longrightarrow>
        h = 0 \<or> h \<in> set (handles s) \<and> e = ucast (h AND 0xFFFFFFFF)) \<and>
     set (handles s) \<subseteq> set (os_open_handles s) \<and>
     distinct (handles s)"

subsection \<open>Concrete systems for the examples\<close>

text \<open>A capability record whose product name is \<^verbatim>\<open>Keys\<close>.\<close>

definition caps_keys :: MIDIINCAPS where
  "caps_keys =
     \<lparr>wMid = 1, wPid = 2, vDriverVersion = 0x100,
      szPname = [0x4B, 0x65, 0x79, 0x73] @ replicate 28 0, dwSupport = 0\<rparr>"

text \<open>Three devices; the second one opens but does not start.\<close>

definition winmm_three :: winmm where
  "winmm_three =
     \<lparr>midiInGetNumDevs = 3,
      midiInOpen = (\<lambda>d. if d = 0 then Some 0x1A0 else if d = 1 then Some 0x1B0
                         else if d = 2 then Some 0x1C0 else None),
      midiInStart = (\<lambda>h. h \<noteq> 0x1B0),
      midiInGetDevCaps = (\<lambda>d. Some caps_keys)\<rparr>"

text \<open>One device.\<close>

definition winmm_one :: winmm where
  "winmm_one =
     \<lparr>midiInGetNumDevs = 1,
      midiInOpen = (\<lambda>d. if d = 0 then Some 0x1A0 else None),
      midiInStart = (\<lambda>h. True),
      midiInGetDevCaps = (\<lambda>d. Some caps_keys)\<rparr>"

text \<open>One device whose handle has its low 32 bits clear.\<close>

definition winmm_high :: winmm where
  "winmm_high =
     \<lparr>midiInGetNumDevs = 1,
      midiInOpen = (\<lambda>d. if d = 0 then Some 0x100000000 else None),
      midiInStart = (\<lambda>h. True),
      midiInGetDevCaps = (\<lambda>d. Some caps_keys)\<rparr>"

section \<open>The message codec\<close>

lemma mask_32_numeral: "(0xFFFFFFFF :: 64 word) = mask 32"
  by (simp add: mask_eq_exp_minus_1)

lemma mask_8_numeral: "(0xFF :: 64 word) = mask 8"
  by (simp add: mask_eq_exp_minus_1)

lemma decode_source_Encode64Bit: "decode_source (Encode64Bit m) = source m"
  unfolding decode_source_def Encode64Bit_def Let_def mask_32_numeral
  by (rule bit_word_eqI) (auto simp add: bit_simps)

lemma decode_status_Encode64Bit: "decode_status (Encode64Bit m) = status m"
  unfolding decode_status_def Encode64Bit_def Let_def mask_8_numeral
  by (rule bit_word_eqI) (auto simp add: bit_simps dest: bit_imp_le_length)

lemma decode_data1_Encode64Bit: "decode_data1 (Encode64Bit m) = data1 m"
  unfolding decode_data1_def Encode64Bit_def Let_def mask_8_numeral
  by (rule bit_word_eqI) (auto simp add: bit_simps dest: bit_imp_le_length)

lemma decode_data2_Encode64Bit: "decode_data2 (Encode64Bit m) = data2 m"
  unfolding decode_data2_def Encode64Bit_def Let_def mask_8_numeral
  by (rule bit_word_eqI) (auto simp add: bit_simps dest: bit_imp_le_length)

lemma Encode64Bit_high_bits: "drop_bit 56 (Encode64Bit m) = 0"
  unfolding Encode64Bit_def Let_def
  by (rule bit_word_eqI) (auto simp add: bit_simps dest: bit_imp_le_length)

text \<open>
  C1. Packing an endpoint identifier and three bytes with \<^verbatim>\<open>Encode64Bit\<close> and taking the
  value apart with the shifts and masks of the test client gives the four fields back,
  for every 32-bit identifier and all bytes. Bits 56 to 63 of the packed value are zero.
\<close>

theorem C1_codec_round_trip:
  "decode (Encode64Bit \<lparr>source = e, status = st, data1 = d1, data2 = d2\<rparr>) = (e, st, d1, d2) \<and>
   drop_bit 56 (Encode64Bit \<lparr>source = e, status = st, data1 = d1, data2 = d2\<rparr>) = 0"
  by (simp add: decode_def decode_source_Encode64Bit decode_status_Encode64Bit
      decode_data1_Encode64Bit decode_data2_Encode64Bit Encode64Bit_high_bits)

section \<open>The message queue\<close>

lemma MidiInProc_data_queue:
  "message_queue (MidiInProc h MIM_DATA i p q s) =
     message_queue s @ [MidiMessage_new (callback_endpoint s h) (ucast p)]"
  by (simp add: MidiInProc_def callback_endpoint_def Let_def split: prod.split)

lemma Dequeue_Cons:
  "message_queue s = m # ms \<Longrightarrow>
   MidiJackDequeueIncomingData s = (Encode64Bit m, s\<lparr>message_queue := ms\<rparr>)"
  by (simp add: MidiJackDequeueIncomingData_def)

lemma Dequeue_Nil:
  "message_queue s = [] \<Longrightarrow> MidiJackDequeueIncomingData s = (0, s)"
  by (simp add: MidiJackDequeueIncomingData_def)

lemma Encode64Bit_eq_0_iff:
  "Encode64Bit m = 0 \<longleftrightarrow> source m = 0 \<and> status m = 0 \<and> data1 m = 0 \<and> data2 m = 0"
proof
  assume zero: "Encode64Bit m = 0"
  have "source m = decode_source (Encode64Bit m)" "status m = decode_status (Encode64Bit m)"
    "data1 m = decode_data1 (Encode64Bit m)" "data2 m = decode_data2 (Encode64Bit m)"
    by (simp_all only: decode_source_Encode64Bit decode_status_Encode64Bit
        decode_data1_Encode64Bit decode_data2_Encode64Bit)
  then show "source m = 0 \<and> status m = 0 \<and> data1 m = 0 \<and> data2 m = 0"
    by (simp add: zero decode_source_def decode_status_def decode_data1_def decode_data2_def)
next
  assume "source m = 0 \<and> status m = 0 \<and> data1 m = 0 \<and> data2 m = 0"
  then show "Encode64Bit m = 0"
    by (simp add: Encode64Bit_def)
qed

text \<open>
  C5. The message with endpoint identifier 0 and three zero bytes is encoded as 0, and 0
  is what \<^verbatim>\<open>MidiJackDequeueIncomingData\<close> returns for an empty queue: dequeuing that
  message and dequeuing from an empty queue return the same value. It is the only
  message encoded as 0.
\<close>

theorem C5_zero_message_is_sentinel:
  "Encode64Bit \<lparr>source = 0, status = 0, data1 = 0, data2 = 0\<rparr> = 0 \<and>
   fst (MidiJackDequeueIncomingData (s\<lparr>message_queue := []\<rparr>)) = 0 \<and>
   fst (MidiJackDequeueIncomingData
     (s\<lparr>message_queue := [\<lparr>source = 0, status = 0, data1 = 0, data2 = 0\<rparr>]\<rparr>)) = 0 \<and>
   (Encode64Bit m = 0 \<longleftrightarrow> source m = 0 \<and> status m = 0 \<and> data1 m = 0 \<and> data2 m = 0)"
  by (simp add: Encode64Bit_eq_0_iff MidiJackDequeueIncomingData_def)

text \<open>
  C4. The queue is first in, first out. Starting from an empty queue, three data events
  delivered to the callback put three messages into the queue in the order of the calls;
  three calls of \<^verbatim>\<open>MidiJackDequeueIncomingData\<close> then return the encodings of the first, the
  second and the third message, and a fourth call returns 0 and leaves the queue empty.
\<close>

theorem C4_queue_fifo:
  assumes "message_queue s0 = []"
  shows "(let s1 = MidiInProc h1 MIM_DATA i1 p1 q1 s0;
              s2 = MidiInProc h2 MIM_DATA i2 p2 q2 s1;
              s3 = MidiInProc h3 MIM_DATA i3 p3 q3 s2;
              (r1, t1) = MidiJackDequeueIncomingData s3;
              (r2, t2) = MidiJackDequeueIncomingData t1;
              (r3, t3) = MidiJackDequeueIncomingData t2;
              (r4, t4) = MidiJackDequeueIncomingData t3
          in message_queue s3 =
               [MidiMessage_new (callback_endpoint s0 h1) (ucast p1),
                MidiMessage_new (callback_endpoint s1 h2) (ucast p2),
                MidiMessage_new (callback_endpoint s2 h3) (ucast p3)] \<and>
             r1 = Encode64Bit (MidiMessage_new (callback_endpoint s0 h1) (ucast p1)) \<and>
             r2 = Encode64Bit (MidiMessage_new (callback_endpoint s1 h2) (ucast p2)) \<and>
             r3 = Encode64Bit (MidiMessage_new (callback_endpoint s2 h3) (ucast p3)) \<and>
             r4 = 0 \<and> message_queue t4 = [])"
  using assms
  by (simp add: Let_def MidiInProc_data_queue Dequeue_Cons Dequeue_Nil)

text \<open>The globals after opening the devices of the three-device system: the second
  device is skipped, the first and the third are registered.\<close>

lemma OpenAllDevices_three:
  "OpenAllDevices winmm_three initial_state =
     \<lparr>handle_to_device_info =
        [0x1A0 \<mapsto> \<lparr>handle = 0x1A0, deviceId = 0, endpointId = 0x1A0, deviceCaps = caps_keys\<rparr>,
         0x1C0 \<mapsto> \<lparr>handle = 0x1C0, deviceId = 2, endpointId = 0x1C0, deviceCaps = caps_keys\<rparr>],
      endpoint_id_to_handle = [0x1A0 \<mapsto> 0x1A0, 0x1C0 \<mapsto> 0x1C0],
      message_queue = [], active_handles = [(0, 0x1A0), (1, 0x1C0)], next_node = 2,
      buffer = [], os_open_handles = [0x1C0, 0x1A0]\<rparr>"
  by (simp add: OpenAllDevices_def winmm_three_def initial_state_def OpenDevice_def
      OpenAllDevices_loop.simps midiInClose_def Let_def)


text \<open>Three events from the endpoints \<open>0x1A0\<close>, \<open>0x1C0\<close> and from an unknown handle,
  and the four values dequeued afterwards.\<close>

theorem C4_queue_fifo_witness:
  "message_queue (OpenAllDevices winmm_three initial_state) = [] \<and>
   (let s0 = OpenAllDevices winmm_three initial_state;
        s1 = MidiInProc 0x1A0 MIM_DATA 0 0x403C90 0 s0;
        s2 = MidiInProc 0x1C0 MIM_DATA 0 0x003C80 0 s1;
        s3 = MidiInProc 0x2A MIM_DATA 0 0x7F07B0 0 s2;
        (r1, t1) = MidiJackDequeueIncomingData s3;
        (r2, t2) = MidiJackDequeueIncomingData t1;
        (r3, t3) = MidiJackDequeueIncomingData t2;
        (r4, t4) = MidiJackDequeueIncomingData t3
    in (r1, r2, r3, r4) = (0x403C90000001A0, 0x3C80000001C0, 0x7F07B000000000, 0))"
  using C4_queue_fifo [of "OpenAllDevices winmm_three initial_state"
      "0x1A0" 0 "0x403C90" 0 "0x1C0" 0 "0x003C80" 0 "0x2A" 0 "0x7F07B0" 0]
  by (simp add: OpenAllDevices_three Let_def MidiInProc_def map_index_def
      MidiJackDequeueIncomingData_def MidiMessage_new_def Encode64Bit_def DeviceInfo_zero_def
      MIM_DATA_def callback_endpoint_def)

section \<open>The callback and handles it does not know\<close>

lemma MidiInProc_unregistered:
  "handle_to_device_info s h = None \<Longrightarrow>
   MidiInProc h MIM_DATA i p q s =
     s\<lparr>handle_to_device_info := (handle_to_device_info s)(h \<mapsto> DeviceInfo_zero),
       message_queue := message_queue s @ [MidiMessage_new 0 (ucast p)]\<rparr>"
  by (simp add: MidiInProc_def map_index_def DeviceInfo_zero_def Let_def)

lemma MidiInProc_registered:
  "handle_to_device_info s h = Some info \<Longrightarrow>
   MidiInProc h MIM_DATA i p q s =
     s\<lparr>message_queue := message_queue s @ [MidiMessage_new (endpointId info) (ucast p)]\<rparr>"
  by (simp add: MidiInProc_def map_index_def Let_def)

text \<open>
  C10. A data event for a handle without a \<^verbatim>\<open>DeviceInfo\<close> is not dropped. The callback
  stores a zero \<^verbatim>\<open>DeviceInfo\<close> under the handle and appends a message whose source is 0.
  With an empty queue before the event, the next dequeue returns the encoding of that
  message, whose endpoint field decodes to 0; it is the value returned for the same raw
  data arriving from a registered device whose endpoint identifier is 0.
\<close>

theorem C10_unregistered_handle_event:
  assumes "handle_to_device_info s h = None"
  shows "MidiInProc h MIM_DATA i p q s =
           s\<lparr>handle_to_device_info := (handle_to_device_info s)(h \<mapsto> DeviceInfo_zero),
             message_queue := message_queue s @ [MidiMessage_new 0 (ucast p)]\<rparr> \<and>
         source (MidiMessage_new 0 (ucast p)) = 0 \<and>
         (message_queue s = [] \<longrightarrow>
            fst (MidiJackDequeueIncomingData (MidiInProc h MIM_DATA i p q s)) =
              Encode64Bit (MidiMessage_new 0 (ucast p)) \<and>
            decode_source (fst (MidiJackDequeueIncomingData (MidiInProc h MIM_DATA i p q s))) = 0) \<and>
         (message_queue s = [] \<and> message_queue u = [] \<and>
          handle_to_device_info u h0 = Some info0 \<and> endpointId info0 = 0 \<longrightarrow>
            fst (MidiJackDequeueIncomingData (MidiInProc h MIM_DATA i p q s)) =
            fst (MidiJackDequeueIncomingData (MidiInProc h0 MIM_DATA i p q u)))"
  using assms
  by (auto simp add: MidiInProc_unregistered MidiInProc_registered Dequeue_Cons
      decode_source_Encode64Bit MidiMessage_new_def)

text \<open>The globals after opening the device whose handle is \<open>0x100000000\<close>: its
  endpoint identifier is 0.\<close>

lemma OpenAllDevices_high:
  "OpenAllDevices winmm_high initial_state =
     \<lparr>handle_to_device_info =
        [0x100000000 \<mapsto>
           \<lparr>handle = 0x100000000, deviceId = 0, endpointId = 0, deviceCaps = caps_keys\<rparr>],
      endpoint_id_to_handle = [0 \<mapsto> 0x100000000],
      message_queue = [], active_handles = [(0, 0x100000000)], next_node = 1,
      buffer = [], os_open_handles = [0x100000000]\<rparr>"
  by (simp add: OpenAllDevices_def winmm_high_def initial_state_def OpenDevice_def
      OpenAllDevices_loop.simps midiInClose_def Let_def)

theorem C10_unregistered_handle_event_witness:
  "handle_to_device_info initial_state 0x2A = None \<and>
   handle_to_device_info (MidiInProc 0x2A MIM_DATA 0 0x7F07B0 0 initial_state) 0x2A =
     Some DeviceInfo_zero \<and>
   fst (MidiJackDequeueIncomingData (MidiInProc 0x2A MIM_DATA 0 0x7F07B0 0 initial_state)) =
     0x7F07B000000000 \<and>
   fst (MidiJackDequeueIncomingData
     (MidiInProc 0x100000000 MIM_DATA 0 0x7F07B0 0 (OpenAllDevices winmm_high initial_state))) =
     0x7F07B000000000"
proof -
  have absent: "handle_to_device_info initial_state 0x2A = None"
    by (simp add: initial_state_def)
  have empty: "message_queue initial_state = []"
    by (simp add: initial_state_def)
  have empty': "message_queue (OpenAllDevices winmm_high initial_state) = []"
    by (simp add: OpenAllDevices_high)
  have present: "handle_to_device_info (OpenAllDevices winmm_high initial_state) 0x100000000 =
      Some \<lparr>handle = 0x100000000, deviceId = 0, endpointId = 0, deviceCaps = caps_keys\<rparr>"
    by (simp add: OpenAllDevices_high)
  have enc: "Encode64Bit (MidiMessage_new 0 (ucast (0x7F07B0 :: 64 word))) = 0x7F07B000000000"
    by (simp add: MidiMessage_new_def Encode64Bit_def)
  note inst = C10_unregistered_handle_event [OF absent, of 0 "0x7F07B0" 0
      "OpenAllDevices winmm_high initial_state" "0x100000000"
      "\<lparr>handle = 0x100000000, deviceId = 0, endpointId = 0, deviceCaps = caps_keys\<rparr>"]
  from inst have after: "MidiInProc 0x2A MIM_DATA 0 0x7F07B0 0 initial_state =
      initial_state\<lparr>handle_to_device_info :=
          (handle_to_device_info initial_state)(0x2A \<mapsto> DeviceInfo_zero),
        message_queue :=
          message_queue initial_state @ [MidiMessage_new 0 (ucast (0x7F07B0 :: 64 word))]\<rparr>"
    by (rule conjunct1)
  from inst empty
  have first: "fst (MidiJackDequeueIncomingData (MidiInProc 0x2A MIM_DATA 0 0x7F07B0 0 initial_state)) =
      Encode64Bit (MidiMessage_new 0 (ucast (0x7F07B0 :: 64 word)))"
    by blast
  have zero: "endpointId
      \<lparr>handle = 0x100000000, deviceId = 0, endpointId = 0, deviceCaps = caps_keys\<rparr> = 0"
    by simp
  from inst empty empty' present zero
  have same: "fst (MidiJackDequeueIncomingData (MidiInProc 0x2A MIM_DATA 0 0x7F07B0 0 initial_state)) =
      fst (MidiJackDequeueIncomingData
        (MidiInProc 0x100000000 MIM_DATA 0 0x7F07B0 0 (OpenAllDevices winmm_high initial_state)))"
    by blast
  have entry: "handle_to_device_info (MidiInProc 0x2A MIM_DATA 0 0x7F07B0 0 initial_state) 0x2A =
      Some DeviceInfo_zero"
    by (subst after) simp
  from absent entry first same enc show ?thesis
    by (simp only: simp_thms)
qed

section \<open>Opening devices\<close>

lemma narrow_name_keys: "narrow_name (szPname caps_keys) = ''Keys''"
  by (simp add: narrow_name_def caps_keys_def char_of_def bit_iff_odd)

lemma OpenDevice_open_fails:
  "midiInOpen os d = None \<Longrightarrow> OpenDevice os d s = s"
  by (simp add: OpenDevice_def)

lemma OpenDevice_start_fails:
  "midiInOpen os d = Some h \<Longrightarrow> \<not> midiInStart os h \<Longrightarrow>
   OpenDevice os d s = midiInClose h (s\<lparr>os_open_handles := h # os_open_handles s\<rparr>)"
  by (simp add: OpenDevice_def Let_def)

lemma OpenDevice_caps_fails:
  "midiInOpen os d = Some h \<Longrightarrow> midiInGetDevCaps os d = None \<Longrightarrow>
   OpenDevice os d s = midiInClose h (s\<lparr>os_open_handles := h # os_open_handles s\<rparr>)"
  by (cases "midiInStart os h") (simp_all add: OpenDevice_def Let_def)

lemma midiInClose_after_open:
  "midiInClose h (s\<lparr>os_open_handles := h # os_open_handles s\<rparr>) = s"
  by (simp add: midiInClose_def)

lemma OpenDevice_not_opens:
  assumes "\<not> opens os d"
  shows "OpenDevice os d s = s"
proof (cases "midiInOpen os d")
  case None
  then show ?thesis by (rule OpenDevice_open_fails)
next
  case (Some h)
  with assms have "\<not> midiInStart os h \<or> midiInGetDevCaps os d = None"
    by (simp add: opens_def)
  with Some have "OpenDevice os d s =
      midiInClose h (s\<lparr>os_open_handles := h # os_open_handles s\<rparr>)"
    by (auto simp add: OpenDevice_start_fails OpenDevice_caps_fails)
  then show ?thesis by (simp only: midiInClose_after_open)
qed

lemma unat_Suc_less:
  fixes ident :: "32 word"
  assumes "ident < device_count"
  shows "unat (ident + 1) = Suc (unat ident)"
proof -
  from assms have "unat ident < unat device_count"
    by (simp add: word_less_nat_alt)
  moreover have "unat device_count < 2 ^ LENGTH(32)"
    by (rule unsigned_less)
  ultimately have "unat ident + unat (1 :: 32 word) < 2 ^ LENGTH(32)"
    by simp
  then have "unat (ident + 1) = unat ident + unat (1 :: 32 word)"
    by (simp only: unat_add_lem)
  then show ?thesis by simp
qed

lemma OpenAllDevices_loop_foldl:
  "ident \<le> device_count \<Longrightarrow>
   OpenAllDevices_loop os ident device_count s =
     foldl (\<lambda>s d. OpenDevice os d s) s (map of_nat [unat ident..<unat device_count])"
proof (induction os ident device_count s rule: OpenAllDevices_loop.induct)
  case (1 os ident device_count s)
  show ?case
  proof (cases "ident < device_count")
    case True
    then have suc: "unat (ident + 1) = Suc (unat ident)"
      by (rule unat_Suc_less)
    from True have less: "unat ident < unat device_count"
      by (simp add: word_less_nat_alt)
    with suc have "ident + 1 \<le> device_count"
      by (simp add: word_le_nat_alt)
    with True "1.IH" have "OpenAllDevices_loop os (ident + 1) device_count (OpenDevice os ident s) =
        foldl (\<lambda>s d. OpenDevice os d s) (OpenDevice os ident s)
          (map of_nat [unat (ident + 1)..<unat device_count])"
      by simp
    moreover from less have "[unat ident..<unat device_count] =
        unat ident # [Suc (unat ident)..<unat device_count]"
      by (rule upt_conv_Cons)
    ultimately show ?thesis
      using True suc by (subst OpenAllDevices_loop.simps) simp
  next
    case False
    with "1.prems" have "ident = device_count"
      by simp
    then show ?thesis
      by (subst OpenAllDevices_loop.simps) simp
  qed
qed

lemma OpenAllDevices_foldl:
  "OpenAllDevices os s = foldl (\<lambda>s d. OpenDevice os d s) s (device_ids os)"
  by (simp add: OpenAllDevices_def device_ids_def OpenAllDevices_loop_foldl)

lemma foldl_skip:
  "(\<And>x s. \<not> P x \<Longrightarrow> f s x = s) \<Longrightarrow> foldl f s xs = foldl f s (filter P xs)"
  by (induction xs arbitrary: s) simp_all

text \<open>
  C6. When \<^verbatim>\<open>midiInOpen\<close> fails for a device index, \<^verbatim>\<open>OpenDevice\<close> changes nothing. When
  it returns a handle and \<^verbatim>\<open>midiInStart\<close> or \<^verbatim>\<open>midiInGetDevCaps\<close> fails, \<^verbatim>\<open>OpenDevice\<close>
  closes that handle again and leaves the globals and the handles open at the operating
  system as they were: no map and not the active list has a new entry. The loop of
  \<^verbatim>\<open>OpenAllDevices\<close> calls \<^verbatim>\<open>OpenDevice\<close> for every device index below the device count,
  whatever the earlier calls did; its result is that of opening, in order, the indices
  for which all three calls succeed.
\<close>

theorem C6_open_failure_is_local:
  "(midiInOpen os d = None \<longrightarrow> OpenDevice os d s = s) \<and>
   (midiInOpen os d = Some h \<and> (\<not> midiInStart os h \<or> midiInGetDevCaps os d = None) \<longrightarrow>
      OpenDevice os d s = midiInClose h (s\<lparr>os_open_handles := h # os_open_handles s\<rparr>) \<and>
      OpenDevice os d s = s) \<and>
   OpenAllDevices os s = foldl (\<lambda>s d. OpenDevice os d s) s (device_ids os) \<and>
   OpenAllDevices os s = foldl (\<lambda>s d. OpenDevice os d s) s (filter (opens os) (device_ids os))"
proof (intro conjI impI)
  assume "midiInOpen os d = None"
  then show "OpenDevice os d s = s"
    by (rule OpenDevice_open_fails)
next
  assume fails: "midiInOpen os d = Some h \<and> (\<not> midiInStart os h \<or> midiInGetDevCaps os d = None)"
  then show closed: "OpenDevice os d s =
      midiInClose h (s\<lparr>os_open_handles := h # os_open_handles s\<rparr>)"
    by (auto simp add: OpenDevice_start_fails OpenDevice_caps_fails)
  then show "OpenDevice os d s = s"
    by (simp only: midiInClose_after_open)
next
  show "OpenAllDevices os s = foldl (\<lambda>s d. OpenDevice os d s) s (device_ids os)"
    by (rule OpenAllDevices_foldl)
next
  have "foldl (\<lambda>s d. OpenDevice os d s) s (device_ids os) =
      foldl (\<lambda>s d. OpenDevice os d s) s (filter (opens os) (device_ids os))"
    by (rule foldl_skip) (rule OpenDevice_not_opens)
  then show "OpenAllDevices os s =
      foldl (\<lambda>s d. OpenDevice os d s) s (filter (opens os) (device_ids os))"
    by (simp only: OpenAllDevices_foldl)
qed


text \<open>In the three-device system the second device opens and does not start: it is
  closed again, and the third device is opened after it.\<close>

theorem C6_open_failure_is_local_witness:
  "midiInOpen winmm_three 1 = Some 0x1B0 \<and> \<not> midiInStart winmm_three 0x1B0 \<and>
   OpenDevice winmm_three 1 initial_state = initial_state \<and>
   filter (opens winmm_three) (device_ids winmm_three) = [0, 2] \<and>
   OpenAllDevices winmm_three initial_state =
     OpenDevice winmm_three 2 (OpenDevice winmm_three 0 initial_state) \<and>
   handles (OpenAllDevices winmm_three initial_state) = [0x1A0, 0x1C0] \<and>
   os_open_handles (OpenAllDevices winmm_three initial_state) = [0x1C0, 0x1A0]"
proof -
  have opened: "midiInOpen winmm_three 1 = Some 0x1B0"
    by (simp add: winmm_three_def)
  have stopped: "\<not> midiInStart winmm_three 0x1B0"
    by (simp add: winmm_three_def)
  have ids: "device_ids winmm_three = [0, 1, 2]"
    by (simp add: device_ids_def winmm_three_def upt_conv_Cons)
  have good: "filter (opens winmm_three) (device_ids winmm_three) = [0, 2]"
    by (simp add: ids) (simp add: opens_def winmm_three_def)
  note inst = C6_open_failure_is_local [of winmm_three 1 initial_state "0x1B0"]
  from inst opened stopped have local: "OpenDevice winmm_three 1 initial_state = initial_state"
    by blast
  from inst have "OpenAllDevices winmm_three initial_state =
      foldl (\<lambda>s d. OpenDevice winmm_three d s) initial_state
        (filter (opens winmm_three) (device_ids winmm_three))"
    by blast
  then have skip: "OpenAllDevices winmm_three initial_state =
      OpenDevice winmm_three 2 (OpenDevice winmm_three 0 initial_state)"
    by (simp add: good)
  have active: "handles (OpenAllDevices winmm_three initial_state) = [0x1A0, 0x1C0]"
    by (simp add: OpenAllDevices_three handles_def)
  have os: "os_open_handles (OpenAllDevices winmm_three initial_state) = [0x1C0, 0x1A0]"
    by (simp add: OpenAllDevices_three)
  from opened stopped local good skip active os show ?thesis
    by blast
qed

section \<open>Refreshing the devices\<close>

lemma active_handles_CloseDevice:
  "active_handles (CloseDevice h s) = list_remove h (active_handles s)"
  by (simp add: CloseDevice_def midiInClose_def Let_def split: prod.split)

lemma RefreshDevices_loop_invalidated:
  "n \<in> set (active_handles s) \<Longrightarrow> RefreshDevices_loop (Some n) s = Inl InvalidIterator"
  by (simp add: active_handles_CloseDevice list_next_def list_remove_def)

lemma RefreshDevices_nonempty:
  assumes "active_handles s \<noteq> []"
  shows "RefreshDevices os s = Inl InvalidIterator"
proof -
  from assms obtain n rest where front: "active_handles s = n # rest"
    by (cases "active_handles s") auto
  then have "n \<in> set (active_handles s)"
    by simp
  then have "RefreshDevices_loop (Some n) s = Inl InvalidIterator"
    by (rule RefreshDevices_loop_invalidated)
  with front show ?thesis
    by (simp add: RefreshDevices_def list_begin_def del: RefreshDevices_loop.simps)
qed

lemma RefreshDevices_empty:
  "active_handles s = [] \<Longrightarrow> RefreshDevices os s = Inr (OpenAllDevices os s)"
  by (simp add: RefreshDevices_def list_begin_def)

text \<open>\<^verbatim>\<open>CloseAllDevices\<close>, which takes the front of the list afresh in every round,
  does close every device.\<close>

lemma CloseAllDevices_empties: "active_handles (CloseAllDevices s) = []"
proof (induction s rule: CloseAllDevices.induct)
  case (1 s)
  show ?case
  proof (cases "active_handles s")
    case Nil
    then show ?thesis by simp
  next
    case (Cons n rest)
    with "1" show ?thesis by simp
  qed
qed

text \<open>
  C2. \<^verbatim>\<open>MidiJackRefreshEndpoints\<close> with at least one active device does not reach
  \<^verbatim>\<open>OpenAllDevices\<close> with defined behaviour: the first \<^verbatim>\<open>CloseDevice\<close> of the closing
  loop erases the list node the loop's iterator points to, and the loop then advances
  that iterator. Only with no active device does the refresh have a defined outcome: it
  runs \<^verbatim>\<open>OpenAllDevices\<close> and returns the number of devices then active.
\<close>

theorem C2_refresh_with_active_devices:
  "(active_handles s \<noteq> [] \<longrightarrow> MidiJackRefreshEndpoints os s = Inl InvalidIterator) \<and>
   (active_handles s = [] \<longrightarrow>
      MidiJackRefreshEndpoints os s =
        Inr (MidiJackCountEndpoints (OpenAllDevices os s), OpenAllDevices os s))"
  by (simp add: MidiJackRefreshEndpoints_def MidiJackCountEndpoints_def
      RefreshDevices_nonempty RefreshDevices_empty)

text \<open>The globals after the first refresh of the one-device system.\<close>

lemma OpenAllDevices_one:
  "OpenAllDevices winmm_one initial_state =
     \<lparr>handle_to_device_info =
        [0x1A0 \<mapsto> \<lparr>handle = 0x1A0, deviceId = 0, endpointId = 0x1A0, deviceCaps = caps_keys\<rparr>],
      endpoint_id_to_handle = [0x1A0 \<mapsto> 0x1A0],
      message_queue = [], active_handles = [(0, 0x1A0)], next_node = 1,
      buffer = [], os_open_handles = [0x1A0]\<rparr>"
  by (simp add: OpenAllDevices_def winmm_one_def initial_state_def OpenDevice_def
      OpenAllDevices_loop.simps midiInClose_def Let_def)

text \<open>The first refresh of a fresh plugin registers the device and returns 1; the second
  refresh runs into the erased node.\<close>

theorem C2_refresh_with_active_devices_witness:
  "active_handles initial_state = [] \<and>
   MidiJackRefreshEndpoints winmm_one initial_state =
     Inr (1, OpenAllDevices winmm_one initial_state) \<and>
   active_handles (OpenAllDevices winmm_one initial_state) \<noteq> [] \<and>
   MidiJackRefreshEndpoints winmm_one (OpenAllDevices winmm_one initial_state) =
     Inl InvalidIterator"
proof -
  have none: "active_handles initial_state = []"
    by (simp add: initial_state_def)
  have count: "MidiJackCountEndpoints (OpenAllDevices winmm_one initial_state) = 1"
    by (simp add: MidiJackCountEndpoints_def OpenAllDevices_one)
  have active: "active_handles (OpenAllDevices winmm_one initial_state) \<noteq> []"
    by (simp add: OpenAllDevices_one)
  from C2_refresh_with_active_devices [of initial_state winmm_one] none
  have "MidiJackRefreshEndpoints winmm_one initial_state =
      Inr (MidiJackCountEndpoints (OpenAllDevices winmm_one initial_state),
        OpenAllDevices winmm_one initial_state)"
    by blast
  then have first: "MidiJackRefreshEndpoints winmm_one initial_state =
      Inr (1, OpenAllDevices winmm_one initial_state)"
    by (simp only: count)
  from C2_refresh_with_active_devices [of "OpenAllDevices winmm_one initial_state" winmm_one]
    active
  have second: "MidiJackRefreshEndpoints winmm_one (OpenAllDevices winmm_one initial_state) =
      Inl InvalidIterator"
    by blast
  from none first active second show ?thesis
    by blast
qed

section \<open>The registry\<close>

text \<open>
  C3. Not every exported operation keeps devices fully registered or fully absent. In
  the fresh plugin, where the registry is consistent, \<^verbatim>\<open>MidiJackGetEndpointName(7)\<close>
  stores the null handle under endpoint identifier 7 in the endpoint map, and a data
  event for the unknown handle \<open>0x2A\<close> stores a zero \<^verbatim>\<open>DeviceInfo\<close> under it in the handle
  map; neither state is consistent.
\<close>

theorem C3_lookups_insert_entries:
  "registry_consistent initial_state \<and>
   endpoint_id_to_handle (snd (MidiJackGetEndpointName 7 initial_state)) = [7 \<mapsto> 0] \<and>
   endpoint_id_to_handle (snd (MidiJackGetEndpointName 7 initial_state)) \<noteq>
     endpoint_id_to_handle initial_state \<and>
   \<not> registry_consistent (snd (MidiJackGetEndpointName 7 initial_state)) \<and>
   handle_to_device_info (MidiInProc 0x2A MIM_DATA 0 0x7F07B0 0 initial_state) =
     [0x2A \<mapsto> DeviceInfo_zero] \<and>
   handle_to_device_info (MidiInProc 0x2A MIM_DATA 0 0x7F07B0 0 initial_state) \<noteq>
     handle_to_device_info initial_state \<and>
   \<not> registry_consistent (MidiInProc 0x2A MIM_DATA 0 0x7F07B0 0 initial_state)"
  by (simp add: registry_consistent_def handles_def initial_state_def
      MidiJackGetEndpointName_def MidiInProc_def map_index_def Let_def)

section \<open>Registering and unregistering a device\<close>

lemma OpenDevice_success:
  assumes "midiInOpen os d = Some h" and "midiInStart os h" and "midiInGetDevCaps os d = Some caps"
  shows "OpenDevice os d s =
     s\<lparr>os_open_handles := h # os_open_handles s,
       endpoint_id_to_handle := (endpoint_id_to_handle s)(ucast (h AND 0xFFFFFFFF) \<mapsto> h),
       handle_to_device_info := (handle_to_device_info s)(h \<mapsto>
          \<lparr>handle = h, deviceId = d, endpointId = ucast (h AND 0xFFFFFFFF), deviceCaps = caps\<rparr>),
       active_handles := active_handles s @ [(next_node s, h)],
       next_node := Suc (next_node s)\<rparr>"
  using assms by (simp add: OpenDevice_def Let_def)

lemma handle_to_device_info_CloseDevice:
  "handle_to_device_info (CloseDevice h s) = (handle_to_device_info s)(h := None)"
  by (simp add: CloseDevice_def midiInClose_def map_index_def Let_def split: option.split)

lemma endpoint_id_to_handle_CloseDevice:
  "endpoint_id_to_handle (CloseDevice h s) =
     (endpoint_id_to_handle s)(callback_endpoint s h := None)"
  by (simp add: CloseDevice_def midiInClose_def map_index_def callback_endpoint_def Let_def
      split: option.split)

lemma list_remove_absent: "h \<notin> snd ` set xs \<Longrightarrow> list_remove h xs = xs"
  by (induction xs) (auto simp add: list_remove_def)

lemma list_remove_append: "list_remove h (xs @ ys) = list_remove h xs @ list_remove h ys"
  by (simp add: list_remove_def)

text \<open>
  C9, amended. \<^verbatim>\<open>CloseDevice\<close> for a handle that has no \<^verbatim>\<open>DeviceInfo\<close> and is not in
  the active list leaves the handle map and the active list as they were, and leaves
  every entry of the endpoint map for a nonzero endpoint identifier as it was; the whole
  endpoint map is unchanged when it has no entry for endpoint identifier 0.
\<close>

theorem C9_unregister_unknown_handle:
  assumes "handle_to_device_info s h = None" and "h \<notin> set (handles s)"
  shows "handle_to_device_info (CloseDevice h s) = handle_to_device_info s \<and>
         active_handles (CloseDevice h s) = active_handles s \<and>
         (\<forall>e. e \<noteq> 0 \<longrightarrow>
            endpoint_id_to_handle (CloseDevice h s) e = endpoint_id_to_handle s e) \<and>
         (endpoint_id_to_handle s 0 = None \<longrightarrow>
            endpoint_id_to_handle (CloseDevice h s) = endpoint_id_to_handle s)"
proof -
  from assms(1) have zero: "callback_endpoint s h = 0"
    by (simp add: callback_endpoint_def map_index_def DeviceInfo_zero_def)
  from assms(1) have "handle_to_device_info (CloseDevice h s) = handle_to_device_info s"
    by (simp add: handle_to_device_info_CloseDevice fun_upd_idem)
  moreover from assms(2) have "active_handles (CloseDevice h s) = active_handles s"
    by (simp add: active_handles_CloseDevice list_remove_absent handles_def)
  moreover have "\<forall>e. e \<noteq> 0 \<longrightarrow>
      endpoint_id_to_handle (CloseDevice h s) e = endpoint_id_to_handle s e"
    by (simp add: endpoint_id_to_handle_CloseDevice zero)
  moreover have "endpoint_id_to_handle s 0 = None \<longrightarrow>
      endpoint_id_to_handle (CloseDevice h s) = endpoint_id_to_handle s"
    by (simp add: endpoint_id_to_handle_CloseDevice zero fun_upd_idem)
  ultimately show ?thesis
    by blast
qed


text \<open>Closing the unknown handle 5 with the first and the third device of the
  three-device system registered.\<close>

theorem C9_unregister_unknown_handle_witness:
  "handle_to_device_info (OpenAllDevices winmm_three initial_state) 5 = None \<and>
   5 \<notin> set (handles (OpenAllDevices winmm_three initial_state)) \<and>
   endpoint_id_to_handle (OpenAllDevices winmm_three initial_state) 0 = None \<and>
   handle_to_device_info (CloseDevice 5 (OpenAllDevices winmm_three initial_state)) =
     handle_to_device_info (OpenAllDevices winmm_three initial_state) \<and>
   active_handles (CloseDevice 5 (OpenAllDevices winmm_three initial_state)) =
     active_handles (OpenAllDevices winmm_three initial_state) \<and>
   endpoint_id_to_handle (CloseDevice 5 (OpenAllDevices winmm_three initial_state)) =
     endpoint_id_to_handle (OpenAllDevices winmm_three initial_state)"
proof -
  have absent: "handle_to_device_info (OpenAllDevices winmm_three initial_state) 5 = None"
    and inactive: "5 \<notin> set (handles (OpenAllDevices winmm_three initial_state))"
    and no_zero: "endpoint_id_to_handle (OpenAllDevices winmm_three initial_state) 0 = None"
    by (simp_all add: OpenAllDevices_three handles_def)
  from C9_unregister_unknown_handle [OF absent inactive] absent inactive no_zero
  show ?thesis by blast
qed

text \<open>With the device of handle \<open>0x100000000\<close> registered under endpoint identifier 0,
  closing the unknown handle 5 erases that device's entry of the endpoint map.\<close>

theorem C9_endpoint_zero_counterexample:
  "handle_to_device_info (OpenAllDevices winmm_high initial_state) 5 = None \<and>
   5 \<notin> set (handles (OpenAllDevices winmm_high initial_state)) \<and>
   5 \<notin> ran (endpoint_id_to_handle (OpenAllDevices winmm_high initial_state)) \<and>
   endpoint_id_to_handle (OpenAllDevices winmm_high initial_state) 0 = Some 0x100000000 \<and>
   endpoint_id_to_handle (CloseDevice 5 (OpenAllDevices winmm_high initial_state)) 0 = None \<and>
   endpoint_id_to_handle (CloseDevice 5 (OpenAllDevices winmm_high initial_state)) \<noteq>
     endpoint_id_to_handle (OpenAllDevices winmm_high initial_state)"
proof -
  have absent: "handle_to_device_info (OpenAllDevices winmm_high initial_state) 5 = None"
    and inactive: "5 \<notin> set (handles (OpenAllDevices winmm_high initial_state))"
    and unmapped: "5 \<notin> ran (endpoint_id_to_handle (OpenAllDevices winmm_high initial_state))"
    and before: "endpoint_id_to_handle (OpenAllDevices winmm_high initial_state) 0 =
      Some 0x100000000"
    by (simp_all add: OpenAllDevices_high handles_def)
  from absent have "callback_endpoint (OpenAllDevices winmm_high initial_state) 5 = 0"
    by (simp add: callback_endpoint_def map_index_def DeviceInfo_zero_def)
  then have after:
    "endpoint_id_to_handle (CloseDevice 5 (OpenAllDevices winmm_high initial_state)) 0 = None"
    by (simp add: endpoint_id_to_handle_CloseDevice)
  with before have "endpoint_id_to_handle (CloseDevice 5 (OpenAllDevices winmm_high initial_state)) \<noteq>
      endpoint_id_to_handle (OpenAllDevices winmm_high initial_state)"
    by (metis option.distinct(1))
  with absent inactive unmapped before after show ?thesis
    by blast
qed

section \<open>The reachable states\<close>

lemma c_str_unknown: "c_str ''unknown'' = ''unknown''"
  by (simp add: c_str_def)

lemma display_name_keys: "display_name caps_keys = ''Keys''"
  by (simp add: display_name_def narrow_name_keys c_str_def)

lemma GetEndpointName_result:
  "fst (MidiJackGetEndpointName e s) =
     (case handle_to_device_info s (case endpoint_id_to_handle s e of None \<Rightarrow> 0 | Some h \<Rightarrow> h) of
        None \<Rightarrow> ''unknown''
      | Some info \<Rightarrow> display_name (deviceCaps info))"
  by (simp add: MidiJackGetEndpointName_def map_index_def GetDeviceName_def Let_def
      display_name_def c_str_unknown split: option.split)

lemma GetEndpointName_state:
  "handle_to_device_info (snd (MidiJackGetEndpointName e s)) = handle_to_device_info s"
  "active_handles (snd (MidiJackGetEndpointName e s)) = active_handles s"
  "os_open_handles (snd (MidiJackGetEndpointName e s)) = os_open_handles s"
  "endpoint_id_to_handle (snd (MidiJackGetEndpointName e s)) =
     (case endpoint_id_to_handle s e of
        None \<Rightarrow> (endpoint_id_to_handle s)(e \<mapsto> 0)
      | Some h \<Rightarrow> endpoint_id_to_handle s)"
  by (simp_all add: MidiJackGetEndpointName_def map_index_def Let_def split: option.split)

lemma os_open_handles_CloseDevice:
  "os_open_handles (CloseDevice h s) = remove1 h (os_open_handles s)"
  by (simp add: CloseDevice_def midiInClose_def map_index_def Let_def split: option.split)

lemma MidiInProc_state:
  "endpoint_id_to_handle (MidiInProc h w i p q s) = endpoint_id_to_handle s"
  "active_handles (MidiInProc h w i p q s) = active_handles s"
  "os_open_handles (MidiInProc h w i p q s) = os_open_handles s"
  "handle_to_device_info (MidiInProc h w i p q s) k =
     (if w = MIM_DATA \<and> k = h \<and> handle_to_device_info s h = None then Some DeviceInfo_zero
      else handle_to_device_info s k)"
  by (simp_all add: MidiInProc_def map_index_def Let_def split: option.split)

text \<open>Every step keeps \<open>registry_inv\<close>.\<close>

lemma registry_inv_initial: "registry_inv initial_state"
  by (simp add: registry_inv_def initial_state_def handles_def)

lemma registry_inv_callback:
  assumes "registry_inv s" and "h \<noteq> 0"
  shows "registry_inv (MidiInProc h w i p q s)"
  using assms unfolding registry_inv_def handles_def
  by (auto simp add: MidiInProc_state)

lemma registry_inv_endpoint_name:
  assumes "registry_inv s"
  shows "registry_inv (snd (MidiJackGetEndpointName e s))"
  using assms unfolding registry_inv_def handles_def
  by (auto simp add: GetEndpointName_state split: option.splits if_splits)

lemma registry_inv_dequeue:
  assumes "registry_inv s"
  shows "registry_inv (snd (MidiJackDequeueIncomingData s))"
  using assms unfolding registry_inv_def handles_def
  by (auto simp add: MidiJackDequeueIncomingData_def split: list.splits)

lemma registry_inv_endpoint_id:
  assumes "registry_inv s" and "MidiJackGetEndpointIDAtIndex index s = Inr (r, s')"
  shows "registry_inv s'"
proof -
  from assms(2) have range: "0 \<le> index" "index < int (length (active_handles s))"
    by (auto simp add: MidiJackGetEndpointIDAtIndex_def split: if_splits)
  then have "snd (active_handles s ! nat index) \<in> set (handles s)"
    by (simp add: handles_def)
  with assms(1) obtain info where
    "handle_to_device_info s (snd (active_handles s ! nat index)) = Some info"
    unfolding registry_inv_def by blast
  with assms(2) range have "s' = s"
    by (simp add: MidiJackGetEndpointIDAtIndex_def map_index_def)
  with assms(1) show ?thesis by simp
qed


lemma registry_inv_open_device:
  assumes inv: "registry_inv s" and fresh: "fresh_handle os d s"
  shows "registry_inv (OpenDevice os d s)"
proof (cases "opens os d")
  case False
  then have "OpenDevice os d s = s"
    by (rule OpenDevice_not_opens)
  with inv show ?thesis by simp
next
  case True
  then obtain h caps where opened: "midiInOpen os d = Some h" and started: "midiInStart os h"
    and caps: "midiInGetDevCaps os d = Some caps"
    by (auto simp add: opens_def split: option.splits)
  from fresh opened have nonnull: "h \<noteq> 0" and closed: "h \<notin> set (os_open_handles s)"
    by (simp_all add: fresh_handle_def)
  from inv closed have inactive: "h \<notin> set (handles s)"
    unfolding registry_inv_def by blast
  note after = OpenDevice_success [OF opened started caps, of s]
  have hs: "handles (OpenDevice os d s) = handles s @ [h]"
    by (simp add: after handles_def)
  have null: "handle_to_device_info (OpenDevice os d s) 0 = None"
    using inv nonnull by (simp add: after registry_inv_def)
  have infos: "\<forall>k \<in> set (handles (OpenDevice os d s)). k \<noteq> 0 \<and>
      (\<exists>info. handle_to_device_info (OpenDevice os d s) k = Some info \<and> handle info = k \<and>
         endpointId info = ucast (k AND 0xFFFFFFFF))"
    using inv nonnull unfolding hs registry_inv_def by (auto simp add: after)
  have endpoints: "\<forall>e k. endpoint_id_to_handle (OpenDevice os d s) e = Some k \<longrightarrow>
      k = 0 \<or> k \<in> set (handles (OpenDevice os d s)) \<and> e = ucast (k AND 0xFFFFFFFF)"
    using inv unfolding hs registry_inv_def by (auto simp add: after)
  have opened_all: "set (handles (OpenDevice os d s)) \<subseteq> set (os_open_handles (OpenDevice os d s))"
    using inv unfolding hs registry_inv_def by (auto simp add: after)
  have dist: "distinct (handles (OpenDevice os d s))"
    using inv inactive unfolding hs registry_inv_def by simp
  from null infos endpoints opened_all dist show ?thesis
    unfolding registry_inv_def by blast
qed

lemma handles_CloseDevice: "handles (CloseDevice h s) = filter (\<lambda>k. k \<noteq> h) (handles s)"
  by (simp add: handles_def active_handles_CloseDevice list_remove_def filter_map comp_def)

lemma registry_inv_close_device:
  assumes inv: "registry_inv s"
  shows "registry_inv (CloseDevice h s)"
proof -
  have hs: "set (handles (CloseDevice h s)) = set (handles s) - {h}"
    by (auto simp add: handles_CloseDevice)
  have null: "handle_to_device_info (CloseDevice h s) 0 = None"
    using inv by (simp add: handle_to_device_info_CloseDevice registry_inv_def)
  have infos: "\<forall>k \<in> set (handles (CloseDevice h s)). k \<noteq> 0 \<and>
      (\<exists>info. handle_to_device_info (CloseDevice h s) k = Some info \<and> handle info = k \<and>
         endpointId info = ucast (k AND 0xFFFFFFFF))"
    using inv unfolding hs registry_inv_def
    by (auto simp add: handle_to_device_info_CloseDevice)
  have endpoints: "\<forall>e k. endpoint_id_to_handle (CloseDevice h s) e = Some k \<longrightarrow>
      k = 0 \<or> k \<in> set (handles (CloseDevice h s)) \<and> e = ucast (k AND 0xFFFFFFFF)"
  proof (intro allI impI)
    fix e k
    assume entry: "endpoint_id_to_handle (CloseDevice h s) e = Some k"
    then have other: "e \<noteq> callback_endpoint s h" and before: "endpoint_id_to_handle s e = Some k"
      by (auto simp add: endpoint_id_to_handle_CloseDevice split: if_splits)
    show "k = 0 \<or> k \<in> set (handles (CloseDevice h s)) \<and> e = ucast (k AND 0xFFFFFFFF)"
    proof (cases "k = 0")
      case True
      then show ?thesis by simp
    next
      case False
      with inv before have active: "k \<in> set (handles s)" and ident: "e = ucast (k AND 0xFFFFFFFF)"
        unfolding registry_inv_def by blast+
      have "k \<noteq> h"
      proof
        assume "k = h"
        with inv active obtain info where "handle_to_device_info s h = Some info"
          and "endpointId info = ucast (h AND 0xFFFFFFFF)"
          unfolding registry_inv_def by blast
        then have "callback_endpoint s h = ucast (h AND 0xFFFFFFFF)"
          by (simp add: callback_endpoint_def map_index_def)
        with other ident \<open>k = h\<close> show False by simp
      qed
      with active ident show ?thesis
        by (simp add: hs)
    qed
  qed
  have opened_all: "set (handles (CloseDevice h s)) \<subseteq> set (os_open_handles (CloseDevice h s))"
  proof
    fix k
    assume "k \<in> set (handles (CloseDevice h s))"
    then have "k \<in> set (handles s)" and "k \<noteq> h"
      by (simp_all add: hs)
    with inv show "k \<in> set (os_open_handles (CloseDevice h s))"
      unfolding registry_inv_def by (auto simp add: os_open_handles_CloseDevice in_set_remove1)
  qed
  have dist: "distinct (handles (CloseDevice h s))"
    using inv unfolding registry_inv_def by (simp add: handles_CloseDevice)
  from null infos endpoints opened_all dist show ?thesis
    unfolding registry_inv_def by blast
qed

lemma reachable_registry_inv: "reachable s \<Longrightarrow> registry_inv s"
proof (induction rule: reachable.induct)
  case initial
  show ?case by (rule registry_inv_initial)
next
  case (callback s hMidiIn wMsg dwInstance dwParam1 dwParam2)
  then show ?case by (simp add: registry_inv_callback)
next
  case (open_device s os devId)
  then show ?case by (simp add: registry_inv_open_device)
next
  case (close_device s h)
  then show ?case by (simp add: registry_inv_close_device)
next
  case (endpoint_id s index r s')
  then show ?case by (blast intro: registry_inv_endpoint_id)
next
  case (endpoint_name s ident)
  then show ?case by (simp add: registry_inv_endpoint_name)
next
  case (dequeue s)
  then show ?case by (simp add: registry_inv_dequeue)
qed

section \<open>Endpoint names\<close>


section \<open>Registering, then unregistering\<close>

text \<open>
  C8. In a reachable state, let \<^verbatim>\<open>OpenDevice\<close> succeed in all three calls with a handle
  \<open>h\<close> that \<^verbatim>\<open>midiInOpen\<close> answers within its contract. Then the name lookup for the
  endpoint identifier derived from \<open>h\<close> returns the display name of the capabilities
  just read, and \<^verbatim>\<open>MidiJackCountEndpoints\<close> has grown by exactly 1. After
  \<^verbatim>\<open>CloseDevice(h)\<close> the same lookup returns \<^verbatim>\<open>unknown\<close> and the count has shrunk by
  exactly 1.
\<close>

theorem C8_register_then_unregister:
  assumes reach: "reachable s"
    and opened: "midiInOpen os d = Some h" and started: "midiInStart os h"
    and caps: "midiInGetDevCaps os d = Some caps"
    and fresh: "fresh_handle os d s"
  shows "(let s1 = OpenDevice os d s;
              e = ucast (h AND 0xFFFFFFFF);
              s2 = CloseDevice h s1
          in fst (MidiJackGetEndpointName e s1) = display_name caps \<and>
             MidiJackCountEndpoints s1 = MidiJackCountEndpoints s + 1 \<and>
             fst (MidiJackGetEndpointName e s2) = ''unknown'' \<and>
             MidiJackCountEndpoints s2 = MidiJackCountEndpoints s1 - 1)"
proof -
  define s1 where "s1 = OpenDevice os d s"
  define e :: "32 word" where "e = ucast (h AND 0xFFFFFFFF)"
  define s2 where "s2 = CloseDevice h s1"
  define info where "info = \<lparr>handle = h, deviceId = d, endpointId = e, deviceCaps = caps\<rparr>"
  from reach have inv: "registry_inv s"
    by (rule reachable_registry_inv)
  from fresh opened have closed: "h \<notin> set (os_open_handles s)"
    by (simp add: fresh_handle_def)
  with inv have inactive: "h \<notin> set (handles s)"
    unfolding registry_inv_def by blast
  from inv have null: "handle_to_device_info s 0 = None"
    by (simp add: registry_inv_def)
  have s1: "s1 = s\<lparr>os_open_handles := h # os_open_handles s,
       endpoint_id_to_handle := (endpoint_id_to_handle s)(e \<mapsto> h),
       handle_to_device_info := (handle_to_device_info s)(h \<mapsto> info),
       active_handles := active_handles s @ [(next_node s, h)],
       next_node := Suc (next_node s)\<rparr>"
    unfolding s1_def e_def info_def using opened started caps by (rule OpenDevice_success)
  have name1: "fst (MidiJackGetEndpointName e s1) = display_name caps"
    by (simp add: GetEndpointName_result s1 info_def)
  have count1: "MidiJackCountEndpoints s1 = MidiJackCountEndpoints s + 1"
    by (simp add: MidiJackCountEndpoints_def s1)
  have count2: "MidiJackCountEndpoints s2 = MidiJackCountEndpoints s1 - 1"
  proof -
    from inactive have "list_remove h (active_handles s) = active_handles s"
      by (intro list_remove_absent) (simp add: handles_def)
    then have "active_handles s2 = active_handles s"
      by (simp add: s2_def active_handles_CloseDevice s1 list_remove_append)
         (simp add: list_remove_def)
    then show ?thesis
      by (simp add: MidiJackCountEndpoints_def s1)
  qed
  have name2: "fst (MidiJackGetEndpointName e s2) = ''unknown''"
  proof -
    have "callback_endpoint s1 h = e"
      by (simp add: callback_endpoint_def map_index_def s1 info_def)
    then have "endpoint_id_to_handle s2 e = None"
      by (simp add: s2_def endpoint_id_to_handle_CloseDevice)
    moreover from null have "handle_to_device_info s2 0 = None"
      by (simp add: s2_def handle_to_device_info_CloseDevice s1)
    ultimately show ?thesis
      by (simp add: GetEndpointName_result)
  qed
  from name1 count1 count2 name2 show ?thesis
    unfolding Let_def s1_def [symmetric] e_def [symmetric] s2_def [symmetric] by blast
qed


text \<open>A product name whose second wide character has a zero low byte is read by the
  caller up to that character.\<close>

lemma display_name_stops_at_NUL:
  "display_name (caps_keys\<lparr>szPname := [0x4B, 0x100, 0x65] @ replicate 29 0\<rparr>) = ''K''"
  by (simp add: display_name_def narrow_name_def c_str_def char_of_def bit_iff_odd)

text \<open>The three-device system after \<^verbatim>\<open>OpenAllDevices\<close> is reachable: each handle is new
  when it is returned.\<close>

lemma reachable_three: "reachable (OpenAllDevices winmm_three initial_state)"
proof -
  have ids: "device_ids winmm_three = [0, 1, 2]"
    by (simp add: device_ids_def winmm_three_def upt_conv_Cons)
  have s0: "os_open_handles (OpenDevice winmm_three 0 initial_state) = [0x1A0]"
    by (simp add: OpenDevice_def winmm_three_def initial_state_def Let_def)
  have s1: "OpenDevice winmm_three 1 (OpenDevice winmm_three 0 initial_state) =
      OpenDevice winmm_three 0 initial_state"
    by (rule OpenDevice_not_opens) (simp add: opens_def winmm_three_def)
  have third: "midiInOpen winmm_three 2 = Some 0x1C0"
    by (simp add: winmm_three_def)
  have "reachable (OpenDevice winmm_three 0 initial_state)"
    by (rule reachable.open_device [OF reachable.initial])
       (simp add: fresh_handle_def winmm_three_def initial_state_def)
  then have "reachable (OpenDevice winmm_three 2 (OpenDevice winmm_three 0 initial_state))"
    by (rule reachable.open_device) (simp add: fresh_handle_def s0 third)
  moreover have "OpenAllDevices winmm_three initial_state =
      OpenDevice winmm_three 2 (OpenDevice winmm_three 0 initial_state)"
    by (simp add: OpenAllDevices_foldl ids s1)
  ultimately show ?thesis by simp
qed


text \<open>With two devices active, a third one with handle \<open>0x100000000\<close> is registered
  under endpoint identifier 0 and unregistered again.\<close>

theorem C8_register_then_unregister_witness:
  "reachable (OpenAllDevices winmm_three initial_state) \<and>
   midiInOpen winmm_high 0 = Some 0x100000000 \<and> midiInStart winmm_high 0x100000000 \<and>
   midiInGetDevCaps winmm_high 0 = Some caps_keys \<and>
   fresh_handle winmm_high 0 (OpenAllDevices winmm_three initial_state) \<and>
   MidiJackCountEndpoints (OpenAllDevices winmm_three initial_state) = 2 \<and>
   (let s1 = OpenDevice winmm_high 0 (OpenAllDevices winmm_three initial_state);
        s2 = CloseDevice 0x100000000 s1
    in fst (MidiJackGetEndpointName 0 s1) = ''Keys'' \<and>
       MidiJackCountEndpoints s1 = 3 \<and>
       fst (MidiJackGetEndpointName 0 s2) = ''unknown'' \<and>
       MidiJackCountEndpoints s2 = 2)"
proof -
  note reach = reachable_three
  have opened: "midiInOpen winmm_high 0 = Some 0x100000000"
    and started: "midiInStart winmm_high 0x100000000"
    and caps: "midiInGetDevCaps winmm_high 0 = Some caps_keys"
    by (simp_all add: winmm_high_def)
  have fresh: "fresh_handle winmm_high 0 (OpenAllDevices winmm_three initial_state)"
    by (simp add: fresh_handle_def opened OpenAllDevices_three)
  have count: "MidiJackCountEndpoints (OpenAllDevices winmm_three initial_state) = 2"
    by (simp add: MidiJackCountEndpoints_def OpenAllDevices_three)
  have e: "(ucast ((0x100000000 :: 64 word) AND 0xFFFFFFFF) :: 32 word) = 0"
    by simp
  from C8_register_then_unregister [OF reach opened started caps fresh]
  have "(let s1 = OpenDevice winmm_high 0 (OpenAllDevices winmm_three initial_state);
        s2 = CloseDevice 0x100000000 s1
    in fst (MidiJackGetEndpointName 0 s1) = ''Keys'' \<and>
       MidiJackCountEndpoints s1 = 3 \<and>
       fst (MidiJackGetEndpointName 0 s2) = ''unknown'' \<and>
       MidiJackCountEndpoints s2 = 2)"
    unfolding Let_def e display_name_keys count by simp
  with reach opened started caps fresh count show ?thesis
    by blast
qed

end
